theory Spec2Isabelle
  imports Main
begin

section \<open>JavaScript values and objects used by zLimit\<close>

text \<open>
  The registry of \<^verbatim>\<open>src/index.js\<close> keeps two object literals, \<^verbatim>\<open>var timeouts = {}\<close>
  and \<^verbatim>\<open>var remainingCalls = {}\<close>, and tests membership with the \<^verbatim>\<open>in\<close> operator.
  An object literal is not a bare dictionary: it inherits the properties of
  \<^verbatim>\<open>Object.prototype\<close>, and \<^verbatim>\<open>in\<close> looks through the prototype chain.

  The own properties the code writes are numbers: readings of \<^verbatim>\<open>Date.now()\<close>, the
  \<^verbatim>\<open>limit\<close> argument (documented as a number of calls) and the results of \<^verbatim>\<open>--\<close>,
  which is \<^verbatim>\<open>NaN\<close> when the property it reads is not a number. The numbers are
  modelled as \<open>int\<close>: integers that a JavaScript number represents exactly.
  Names are the documented \<^verbatim>\<open>{string}\<close> identifiers.
\<close>

datatype jsnum = Num int | NaN

type_synonym js_object = "string \<rightharpoonup> jsnum"

text \<open>The property names every object literal inherits from \<^verbatim>\<open>Object.prototype\<close>.\<close>

definition Object_prototype_keys :: "string list" where
  "Object_prototype_keys =
     [''constructor'', ''__defineGetter__'', ''__defineSetter__'', ''hasOwnProperty'',
      ''__lookupGetter__'', ''__lookupSetter__'', ''isPrototypeOf'',
      ''propertyIsEnumerable'', ''toString'', ''valueOf'', ''__proto__'',
      ''toLocaleString'']"

text \<open>\<^verbatim>\<open>name in obj\<close>: an own property, or one found on the prototype.\<close>

definition js_in :: "string \<Rightarrow> js_object \<Rightarrow> bool" where
  "js_in name obj =
     (case obj name of Some v \<Rightarrow> True | None \<Rightarrow> name \<in> set Object_prototype_keys)"

text \<open>
  \<^verbatim>\<open>delete obj[name]\<close> removes an own property and nothing else; on a name that is
  not an own property it does nothing (and does not throw).
\<close>

definition js_delete :: "js_object \<Rightarrow> string \<Rightarrow> js_object" where
  "js_delete obj name = obj(name := None)"

text \<open>
  \<^verbatim>\<open>obj[name]\<close> read as a number. An own property is the number stored. Otherwise
  the read yields \<^verbatim>\<open>undefined\<close>, or the function or object inherited from the prototype;
  arithmetic and comparison turn each of these into \<^verbatim>\<open>NaN\<close> (a function plus a number
  is a non-numeric string, which compares as \<^verbatim>\<open>NaN\<close>).
\<close>

definition js_get :: "js_object \<Rightarrow> string \<Rightarrow> jsnum" where
  "js_get obj name = (case obj name of Some v \<Rightarrow> v | None \<Rightarrow> NaN)"

text \<open>
  \<^verbatim>\<open>obj[name] = v\<close> for a number \<open>v\<close>: it writes an own property. The one exception
  is \<^verbatim>\<open>__proto__\<close>, which the prototype holds as an accessor: unless the object has an
  own property of that name, the assignment runs the setter, and the setter ignores a
  number.
\<close>

definition js_set :: "js_object \<Rightarrow> string \<Rightarrow> jsnum \<Rightarrow> js_object" where
  "js_set obj name v =
     (if name = ''__proto__'' \<and> obj name = None then obj else obj(name \<mapsto> v))"

text \<open>Arithmetic and comparison; every comparison with \<^verbatim>\<open>NaN\<close> is false.\<close>

definition js_plus :: "jsnum \<Rightarrow> int \<Rightarrow> jsnum" where
  "js_plus v n = (case v of Num t \<Rightarrow> Num (t + n) | NaN \<Rightarrow> NaN)"

definition js_ge :: "int \<Rightarrow> jsnum \<Rightarrow> bool" where
  "js_ge a v = (case v of Num b \<Rightarrow> b \<le> a | NaN \<Rightarrow> False)"

definition js_gt0 :: "jsnum \<Rightarrow> bool" where
  "js_gt0 v = (case v of Num n \<Rightarrow> 0 < n | NaN \<Rightarrow> False)"

text \<open>\<^verbatim>\<open>obj[name]--\<close>: read as a number, subtract one, assign.\<close>

definition js_decrement :: "js_object \<Rightarrow> string \<Rightarrow> js_object" where
  "js_decrement obj name = js_set obj name (js_plus (js_get obj name) (- 1))"

text \<open>
  What an operation returns, and the errors that can come out of it: the
  \<^verbatim>\<open>TypeError\<close> of calling something that is not a function, and whatever an action
  throws.
\<close>

datatype jsval = JBool bool | JUndefined

datatype js_error = TypeError | Thrown

type_synonym js_result = "js_error + jsval"

section \<open>The registry and the actions\<close>

text \<open>
  The state: the two objects of the registry, and the caller's world \<open>'w\<close> (whatever
  the caller's closures read and write, the clock included).
\<close>

record 'w zstate =
  timeouts :: js_object
  remainingCalls :: js_object
  world :: 'w

text \<open>\<^verbatim>\<open>new ZLimit()\<close>: both objects start as \<^verbatim>\<open>{}\<close>.\<close>

definition new_ZLimit :: "'w \<Rightarrow> 'w zstate" where
  "new_ZLimit w = \<lparr>timeouts = Map.empty, remainingCalls = Map.empty, world = w\<rparr>"

text \<open>
  The \<^verbatim>\<open>func\<close> argument is arbitrary code of the caller. The registry is an exported
  singleton, so a callable action runs on the whole state: it may change the world, it
  may call the registry itself, and it may throw (\<open>Some e\<close>). Its return value is
  ignored. Calling anything that is not a function raises \<^verbatim>\<open>TypeError\<close>.
  The two objects are private to the constructor: a real action changes them only through
  the four operations.
\<close>

datatype 'w jsfunc = Callable "'w zstate \<Rightarrow> js_error option \<times> 'w zstate" | NotCallable

definition js_call :: "'w jsfunc \<Rightarrow> 'w zstate \<Rightarrow> js_error option \<times> 'w zstate" where
  "js_call func s = (case func of Callable f \<Rightarrow> f s | NotCallable \<Rightarrow> (Some TypeError, s))"

text \<open>
  \<^verbatim>\<open>zLimit.limit\<close> (lines 84 to 95). \<^verbatim>\<open>func()\<close> runs on the seeded state; the
  decrement then applies to what the action left. An error from \<^verbatim>\<open>func()\<close> leaves the
  function at once: the seeding is done, the decrement is not.
\<close>

definition limit :: "string \<Rightarrow> 'w jsfunc \<Rightarrow> int \<Rightarrow> 'w zstate \<Rightarrow> js_result \<times> 'w zstate" where
  "limit name func lim s =
     (let s1 = (if \<not> js_in name (remainingCalls s)
                then s\<lparr>remainingCalls := js_set (remainingCalls s) name (Num lim)\<rparr>
                else s)
      in if js_in name (remainingCalls s1) \<and> js_gt0 (js_get (remainingCalls s1) name)
         then (case js_call func s1 of
                 (Some e, s2) \<Rightarrow> (Inl e, s2)
               | (None, s2) \<Rightarrow>
                   (Inr (JBool True),
                    s2\<lparr>remainingCalls := js_decrement (remainingCalls s2) name\<rparr>))
         else (Inr (JBool False), s1))"

text \<open>\<^verbatim>\<open>zLimit.once\<close> (lines 34 to 36).\<close>

definition once :: "string \<Rightarrow> 'w jsfunc \<Rightarrow> 'w zstate \<Rightarrow> js_result \<times> 'w zstate" where
  "once name func s = limit name func 1 s"

text \<open>
  \<^verbatim>\<open>zLimit.throttle\<close> (lines 55 to 65). \<open>Date_now\<close> reads the clock of the world.
  The first-call branch stores the time and then runs \<^verbatim>\<open>func()\<close>. The repeat branch
  reads the clock in the test, runs \<^verbatim>\<open>func()\<close>, and reads the clock again for the
  value it stores. Falling off the end returns \<^verbatim>\<open>undefined\<close>.
\<close>

definition throttle ::
  "('w \<Rightarrow> int) \<Rightarrow> string \<Rightarrow> 'w jsfunc \<Rightarrow> int \<Rightarrow> 'w zstate \<Rightarrow> js_result \<times> 'w zstate" where
  "throttle Date_now name func interval s =
     (if \<not> js_in name (timeouts s) then
        (let s1 = s\<lparr>timeouts := js_set (timeouts s) name (Num (Date_now (world s)))\<rparr>
         in case js_call func s1 of
              (Some e, s2) \<Rightarrow> (Inl e, s2)
            | (None, s2) \<Rightarrow> (Inr (JBool False), s2))
      else if js_ge (Date_now (world s)) (js_plus (js_get (timeouts s) name) interval) then
        (case js_call func s of
           (Some e, s2) \<Rightarrow> (Inl e, s2)
         | (None, s2) \<Rightarrow>
             (Inr (JBool True),
              s2\<lparr>timeouts := js_set (timeouts s2) name (Num (Date_now (world s2)))\<rparr>))
      else (Inr JUndefined, s))"

text \<open>\<^verbatim>\<open>zLimit.clear\<close> (lines 118 to 129).\<close>

definition clear :: "string \<Rightarrow> 'w zstate \<Rightarrow> js_result \<times> 'w zstate" where
  "clear name s =
     (let reset0 = False;
          (s1, reset1) = (if js_in name (timeouts s)
                          then (s\<lparr>timeouts := js_delete (timeouts s) name\<rparr>, True)
                          else (s, reset0));
          (s2, reset2) = (if js_in name (remainingCalls s1)
                          then (s1\<lparr>remainingCalls := js_delete (remainingCalls s1) name\<rparr>, True)
                          else (s1, reset1))
      in (Inr (JBool reset2), s2))"

section \<open>Actions of the caller\<close>

text \<open>
  \<^verbatim>\<open>function () { ... }\<close> with a body that only touches the caller's world and
  returns.
\<close>

definition world_action :: "('w \<Rightarrow> 'w) \<Rightarrow> 'w jsfunc" where
  "world_action f = Callable (\<lambda>s. (None, s\<lparr>world := f (world s)\<rparr>))"

text \<open>
  \<^verbatim>\<open>function () { zLimit.limit(name, func, lim) }\<close> and
  \<^verbatim>\<open>function () { zLimit.clear(name) }\<close>: actions that call the registry. An error
  of the inner call is not caught.
\<close>

definition calls_limit :: "string \<Rightarrow> 'w jsfunc \<Rightarrow> int \<Rightarrow> 'w jsfunc" where
  "calls_limit name func lim =
     Callable (\<lambda>s. case limit name func lim s of
                      (Inl e, s1) \<Rightarrow> (Some e, s1)
                    | (Inr v, s1) \<Rightarrow> (None, s1))"

definition calls_clear :: "string \<Rightarrow> 'w jsfunc" where
  "calls_clear name =
     Callable (\<lambda>s. case clear name s of
                      (Inl e, s1) \<Rightarrow> (Some e, s1)
                    | (Inr v, s1) \<Rightarrow> (None, s1))"

text \<open>\<^verbatim>\<open>function () { throw ... }\<close>.\<close>

definition throwing_action :: "'w jsfunc" where
  "throwing_action = Callable (\<lambda>s. (Some Thrown, s))"

section \<open>Sequences of calls\<close>

text \<open>
  A caller's program, as far as the registry sees it: the four operations, and
  \<open>Caller g\<close> for the caller's own code between two of them (time passing is one
  such step). An error that comes out of an operation is taken as caught: the run goes
  on.
\<close>

datatype 'w call =
    Once string "'w jsfunc"
  | Throttle string "'w jsfunc" int
  | Limit string "'w jsfunc" int
  | Clear string
  | Caller "'w \<Rightarrow> 'w"

fun exec :: "('w \<Rightarrow> int) \<Rightarrow> 'w call \<Rightarrow> 'w zstate \<Rightarrow> 'w zstate" where
  "exec Date_now (Once name func) s = snd (once name func s)"
| "exec Date_now (Throttle name func interval) s = snd (throttle Date_now name func interval s)"
| "exec Date_now (Limit name func lim) s = snd (limit name func lim s)"
| "exec Date_now (Clear name) s = snd (clear name s)"
| "exec Date_now (Caller g) s = s\<lparr>world := g (world s)\<rparr>"

fun run :: "('w \<Rightarrow> int) \<Rightarrow> 'w call list \<Rightarrow> 'w zstate \<Rightarrow> 'w zstate" where
  "run Date_now [] s = s"
| "run Date_now (c # cs) s = run Date_now cs (exec Date_now c s)"

text \<open>\<^verbatim>\<open>limit(name, func, n)\<close> called once for each \<open>n\<close> of a list, in order.\<close>

fun limit_calls ::
  "string \<Rightarrow> 'w jsfunc \<Rightarrow> int list \<Rightarrow> 'w zstate \<Rightarrow> js_result list \<times> 'w zstate" where
  "limit_calls name func [] s = ([], s)"
| "limit_calls name func (n # ns) s =
     (let (r, s1) = limit name func n s;
          (rs, s2) = limit_calls name func ns s1
      in (r # rs, s2))"

text \<open>\<^verbatim>\<open>once(name, func)\<close> called \<open>k\<close> times in a row.\<close>

fun once_calls :: "string \<Rightarrow> 'w jsfunc \<Rightarrow> nat \<Rightarrow> 'w zstate \<Rightarrow> js_result list \<times> 'w zstate" where
  "once_calls name func 0 s = ([], s)"
| "once_calls name func (Suc k) s =
     (let (r, s1) = once name func s;
          (rs, s2) = once_calls name func k s1
      in (r # rs, s2))"

text \<open>
  \<^verbatim>\<open>throttle(name, func, interval)\<close> called once after each step of the caller in a
  list (a step may move the clock).
\<close>

fun throttle_calls ::
  "('w \<Rightarrow> int) \<Rightarrow> string \<Rightarrow> 'w jsfunc \<Rightarrow> int \<Rightarrow> ('w \<Rightarrow> 'w) list \<Rightarrow> 'w zstate \<Rightarrow>
   js_result list \<times> 'w zstate" where
  "throttle_calls Date_now name func interval [] s = ([], s)"
| "throttle_calls Date_now name func interval (g # gs) s =
     (let (r, s1) = throttle Date_now name func interval (s\<lparr>world := g (world s)\<rparr>);
          (rs, s2) = throttle_calls Date_now name func interval gs s1
      in (r # rs, s2))"

text \<open>The arguments the documentation asks of \<^verbatim>\<open>limit\<close>: a count that is not negative.\<close>

fun nonneg_limit :: "'w call \<Rightarrow> bool" where
  "nonneg_limit (Limit name func lim) = (0 \<le> lim)"
| "nonneg_limit c = True"

fun clears :: "string \<Rightarrow> 'w call \<Rightarrow> bool" where
  "clears name (Clear name') = (name' = name)"
| "clears name c = False"

text \<open>The action a call hands to the registry, if any.\<close>

fun call_action :: "'w call \<Rightarrow> 'w jsfunc option" where
  "call_action (Once name func) = Some func"
| "call_action (Throttle name func interval) = Some func"
| "call_action (Limit name func lim) = Some func"
| "call_action c = None"

section \<open>Facts about the JavaScript operations\<close>

text \<open>
  An \<^emph>\<open>entry\<close> of a name is an own property of the object: \<open>obj name = Some v\<close>.
  A new registry has no entry at all, yet \<open>js_in\<close> holds in it for every inherited key.
\<close>

lemmas model_defs = new_ZLimit_def limit_def once_def throttle_def clear_def js_in_def js_gt0_def
  js_ge_def js_plus_def js_get_def js_set_def js_decrement_def js_delete_def js_call_def
  world_action_def calls_limit_def calls_clear_def throwing_action_def
  Object_prototype_keys_def

lemma inherited_toString: "''toString'' \<in> set Object_prototype_keys"
  by (simp add: Object_prototype_keys_def)

lemma inherited_hasOwnProperty: "''hasOwnProperty'' \<in> set Object_prototype_keys"
  by (simp add: Object_prototype_keys_def)

lemma inherited_valueOf: "''valueOf'' \<in> set Object_prototype_keys"
  by (simp add: Object_prototype_keys_def)

lemma inherited_proto: "''__proto__'' \<in> set Object_prototype_keys"
  by (simp add: Object_prototype_keys_def)

lemma js_in_own: "obj name = Some v \<Longrightarrow> js_in name obj"
  by (simp add: js_in_def)

lemma js_in_absent: "obj name = None \<Longrightarrow> js_in name obj = (name \<in> set Object_prototype_keys)"
  by (simp add: js_in_def)

lemma js_in_inherited: "name \<in> set Object_prototype_keys \<Longrightarrow> js_in name obj"
  by (simp add: js_in_def split: option.splits)

lemma js_set_ordinary: "name \<notin> set Object_prototype_keys \<Longrightarrow> js_set obj name v = obj(name \<mapsto> v)"
  using inherited_proto by (auto simp add: js_set_def)

lemma js_set_own: "obj name = Some x \<Longrightarrow> js_set obj name v = obj(name \<mapsto> v)"
  by (simp add: js_set_def)

lemma js_set_other: "m \<noteq> name \<Longrightarrow> js_set obj name v m = obj m"
  by (simp add: js_set_def)

lemma js_call_world_action [simp]:
  "js_call (world_action f) s = (None, s\<lparr>world := f (world s)\<rparr>)"
  by (simp add: js_call_def world_action_def)

lemma js_call_NotCallable [simp]: "js_call NotCallable s = (Some TypeError, s)"
  by (simp add: js_call_def)

lemma js_call_throwing_action [simp]: "js_call throwing_action s = (Some Thrown, s)"
  by (simp add: js_call_def throwing_action_def)

section \<open>limit and once\<close>

text \<open>
  One call, whatever the action: a name not seen runs the seeding and, for a positive
  limit, the action on the seeded state; a name with an entry; an inherited key.
\<close>

lemma limit_first:
  assumes "remainingCalls s name = None" and "name \<notin> set Object_prototype_keys"
  shows "limit name func n s =
     (let s1 = s\<lparr>remainingCalls := (remainingCalls s)(name \<mapsto> Num n)\<rparr>
      in if 0 < n
         then (case js_call func s1 of
                 (Some e, s2) \<Rightarrow> (Inl e, s2)
               | (None, s2) \<Rightarrow>
                   (Inr (JBool True), s2\<lparr>remainingCalls := js_decrement (remainingCalls s2) name\<rparr>))
         else (Inr (JBool False), s1))"
  using assms by (simp add: limit_def Let_def js_in_def js_gt0_def js_get_def js_set_ordinary)

lemma limit_repeat:
  assumes "remainingCalls s name = Some v"
  shows "limit name func n s =
     (if js_gt0 v
      then (case js_call func s of
              (Some e, s2) \<Rightarrow> (Inl e, s2)
            | (None, s2) \<Rightarrow>
                (Inr (JBool True), s2\<lparr>remainingCalls := js_decrement (remainingCalls s2) name\<rparr>))
      else (Inr (JBool False), s))"
  using assms by (simp add: limit_def Let_def js_in_def js_get_def)

lemma limit_inherited:
  assumes "remainingCalls s name = None" and "name \<in> set Object_prototype_keys"
  shows "limit name func n s = (Inr (JBool False), s)"
  using assms by (simp add: limit_def js_in_def js_gt0_def js_get_def)

text \<open>The same with an action that only touches the world.\<close>

lemma limit_unseen:
  assumes "remainingCalls s name = None" and "name \<notin> set Object_prototype_keys"
  shows "limit name (world_action f) n s =
     (if 0 < n
      then (Inr (JBool True),
            s\<lparr>remainingCalls := (remainingCalls s)(name \<mapsto> Num (n - 1)), world := f (world s)\<rparr>)
      else (Inr (JBool False), s\<lparr>remainingCalls := (remainingCalls s)(name \<mapsto> Num n)\<rparr>))"
  using assms
  by (simp add: limit_first Let_def js_decrement_def js_get_def js_plus_def js_set_own)

lemma limit_seen:
  assumes "remainingCalls s name = Some (Num r)"
  shows "limit name (world_action f) n s =
     (if 0 < r
      then (Inr (JBool True),
            s\<lparr>remainingCalls := (remainingCalls s)(name \<mapsto> Num (r - 1)), world := f (world s)\<rparr>)
      else (Inr (JBool False), s))"
  using assms
  by (simp add: limit_repeat js_gt0_def js_decrement_def js_get_def js_plus_def js_set_own)

text \<open>
  Any number of calls on a name whose entry holds \<open>r\<close>, with an action that only touches
  the world: the first \<open>r\<close> of them run the action, the others do not, and the \<open>n\<close> they
  pass is never looked at.
\<close>

lemma limit_calls_seen:
  "remainingCalls s name = Some (Num r) \<Longrightarrow>
   fst (limit_calls name (world_action f) ns s) =
     map (\<lambda>i. Inr (JBool (int i < r))) [0..<length ns] \<and>
   world (snd (limit_calls name (world_action f) ns s)) =
     (f ^^ min (nat r) (length ns)) (world s) \<and>
   remainingCalls (snd (limit_calls name (world_action f) ns s)) =
     (remainingCalls s)(name \<mapsto> Num (r - int (min (nat r) (length ns)))) \<and>
   timeouts (snd (limit_calls name (world_action f) ns s)) = timeouts s"
proof (induction ns arbitrary: s r)
  case Nil
  then show ?case by (simp add: fun_upd_idem)
next
  case (Cons n ns)
  show ?case
  proof (cases "0 < r")
    case False
    with Cons.prems have step: "limit name (world_action f) n s = (Inr (JBool False), s)"
      by (simp add: limit_seen)
    from False have nr: "nat r = 0" by simp
    from False have allF: "\<And>i::nat. \<not> int i < r" by linarith
    from Cons.IH [OF Cons.prems] step False show ?thesis
      by (simp add: nr allF map_upt_Suc split_beta del: upt_Suc)
  next
    case True
    let ?s1 = "s\<lparr>remainingCalls := (remainingCalls s)(name \<mapsto> Num (r - 1)),
                  world := f (world s)\<rparr>"
    from Cons.prems True have step: "limit name (world_action f) n s = (Inr (JBool True), ?s1)"
      by (simp add: limit_seen)
    have e: "remainingCalls ?s1 name = Some (Num (r - 1))" by simp
    from True have m: "min (nat r) (Suc (length ns)) = Suc (min (nat (r - 1)) (length ns))"
      by linarith
    from Cons.IH [OF e] step True show ?thesis
      by (auto simp add: m map_upt_Suc funpow_swap1 split_beta simp del: upt_Suc)
  qed
qed

text \<open>
  From a name that has no quota entry (and is not an inherited key): the first call's
  \<open>n\<close> seeds the quota, the action runs on the first \<open>n\<close> calls and on no later one.
\<close>

lemma limit_calls_unseen:
  assumes "remainingCalls s name = None" and "name \<notin> set Object_prototype_keys"
  shows "fst (limit_calls name (world_action f) (n # ns) s) =
           map (\<lambda>i. Inr (JBool (int i < n))) [0..<Suc (length ns)] \<and>
         world (snd (limit_calls name (world_action f) (n # ns) s)) =
           (f ^^ min (nat n) (Suc (length ns))) (world s)"
proof -
  let ?s0 = "s\<lparr>remainingCalls := (remainingCalls s)(name \<mapsto> Num n)\<rparr>"
  have same: "limit name (world_action f) n s = limit name (world_action f) n ?s0"
    using assms by (simp add: limit_unseen limit_seen)
  have "limit_calls name (world_action f) (n # ns) s =
        limit_calls name (world_action f) (n # ns) ?s0"
    by (simp add: same)
  moreover have "remainingCalls ?s0 name = Some (Num n)" by simp
  ultimately show ?thesis
    using limit_calls_seen [of ?s0 name n f "n # ns"] by simp
qed

lemma limit_x_scenario:
  "fst (limit_calls ''x'' (world_action f) [3, 3, 3, 3, 3] (new_ZLimit w)) =
     [Inr (JBool True), Inr (JBool True), Inr (JBool True), Inr (JBool False), Inr (JBool False)] \<and>
   world (snd (limit_calls ''x'' (world_action f) [3, 3, 3, 3, 3] (new_ZLimit w))) = f (f (f w))"
  by (simp add: model_defs)

lemma once_is_limit_1: "once name func s = limit name func 1 s"
  by (simp add: once_def)

lemma once_calls_limit_calls:
  "once_calls name func k s = limit_calls name func (replicate k 1) s"
  by (induction k arbitrary: s) (simp_all add: once_def split_beta)

lemma once_calls_unseen:
  assumes "remainingCalls s name = None" and "name \<notin> set Object_prototype_keys"
  shows "fst (once_calls name (world_action f) (Suc k) s) =
           Inr (JBool True) # replicate k (Inr (JBool False)) \<and>
         world (snd (once_calls name (world_action f) (Suc k) s)) = f (world s)"
proof -
  have "map (\<lambda>i. Inr (JBool (int i < 1)) :: js_result) [0..<Suc k] =
          Inr (JBool True) # replicate k (Inr (JBool False))"
    by (simp add: map_upt_Suc map_replicate_const del: upt_Suc)
  with limit_calls_unseen [OF assms, of f 1 "replicate k 1"] show ?thesis
    by (simp add: once_calls_limit_calls del: upt_Suc)
qed

lemma once_y_scenario:
  "fst (once_calls ''y'' (world_action f) 3 (new_ZLimit w)) =
     [Inr (JBool True), Inr (JBool False), Inr (JBool False)] \<and>
   world (snd (once_calls ''y'' (world_action f) 3 (new_ZLimit w))) = f w"
  by (simp add: numeral_3_eq_3 model_defs)

lemma clear_removes:
  "timeouts (snd (clear name s)) = (timeouts s)(name := None) \<and>
   remainingCalls (snd (clear name s)) = (remainingCalls s)(name := None) \<and>
   world (snd (clear name s)) = world s"
  by (auto simp add: clear_def js_in_def js_delete_def split: option.splits)

lemma limit_zero_ordinary:
  assumes "remainingCalls s name = None" and "name \<notin> set Object_prototype_keys" and "lim \<le> 0"
  shows "limit name func lim s =
           (Inr (JBool False), s\<lparr>remainingCalls := (remainingCalls s)(name \<mapsto> Num lim)\<rparr>) \<and>
         fst (clear name (snd (limit name func lim s))) = Inr (JBool True)"
  using assms by (simp add: limit_first Let_def clear_def js_in_def js_delete_def)

text \<open>
  What a call of \<open>limit\<close> does to the entries of another name is what its action does
  to them.
\<close>

lemma limit_frame:
  assumes "m \<noteq> name"
    and "\<And>s'. timeouts (snd (js_call func s')) m = timeouts s' m \<and>
              remainingCalls (snd (js_call func s')) m = remainingCalls s' m"
  shows "timeouts (snd (limit name func n s)) m = timeouts s m \<and>
         remainingCalls (snd (limit name func n s)) m = remainingCalls s m"
proof -
  let ?s1 = "if \<not> js_in name (remainingCalls s)
             then s\<lparr>remainingCalls := js_set (remainingCalls s) name (Num n)\<rparr> else s"
  have s1: "timeouts ?s1 m = timeouts s m \<and> remainingCalls ?s1 m = remainingCalls s m"
    using assms(1) by (simp add: js_set_other)
  from assms(2) [of ?s1] s1
  have call: "timeouts (snd (js_call func ?s1)) m = timeouts s m \<and>
              remainingCalls (snd (js_call func ?s1)) m = remainingCalls s m"
    by simp
  show ?thesis
    using s1 call assms(1)
    by (auto simp add: limit_def Let_def js_decrement_def js_set_other
        split: prod.splits option.splits)
qed


section \<open>throttle\<close>

lemma throttle_first_call:
  assumes "timeouts s name = None" and "name \<notin> set Object_prototype_keys"
  shows "throttle Date_now name func interval s =
     (let s1 = s\<lparr>timeouts := (timeouts s)(name \<mapsto> Num (Date_now (world s)))\<rparr>
      in case js_call func s1 of
           (Some e, s2) \<Rightarrow> (Inl e, s2)
         | (None, s2) \<Rightarrow> (Inr (JBool False), s2))"
  using assms by (simp add: throttle_def Let_def js_in_def js_set_ordinary)

lemma throttle_repeat_call:
  assumes "timeouts s name = Some (Num t0)"
  shows "throttle Date_now name func interval s =
     (if interval \<le> Date_now (world s) - t0
      then (case js_call func s of
              (Some e, s2) \<Rightarrow> (Inl e, s2)
            | (None, s2) \<Rightarrow>
                (Inr (JBool True),
                 s2\<lparr>timeouts := js_set (timeouts s2) name (Num (Date_now (world s2)))\<rparr>))
      else (Inr JUndefined, s))"
  using assms by (auto simp add: throttle_def js_in_def js_ge_def js_plus_def js_get_def)

lemma throttle_first:
  assumes "timeouts s name = None" and "name \<notin> set Object_prototype_keys"
  shows "throttle Date_now name (world_action f) interval s =
           (Inr (JBool False),
            s\<lparr>timeouts := (timeouts s)(name \<mapsto> Num (Date_now (world s))),
              world := f (world s)\<rparr>)"
  using assms by (simp add: throttle_first_call)

lemma throttle_repeat:
  assumes "timeouts s name = Some (Num t0)"
  shows "throttle Date_now name (world_action f) interval s =
           (if interval \<le> Date_now (world s) - t0
            then (Inr (JBool True),
                  s\<lparr>timeouts := (timeouts s)(name \<mapsto> Num (Date_now (f (world s)))),
                    world := f (world s)\<rparr>)
            else (Inr JUndefined, s))"
  using assms by (simp add: throttle_repeat_call js_set_own)

lemma throttle_inherited:
  assumes "timeouts s name = None" and "name \<in> set Object_prototype_keys"
  shows "throttle Date_now name func interval s = (Inr JUndefined, s)"
  using assms by (simp add: throttle_def js_in_def js_ge_def js_plus_def js_get_def)

lemma throttle_frame:
  assumes "m \<noteq> name"
    and "\<And>s'. timeouts (snd (js_call func s')) m = timeouts s' m \<and>
              remainingCalls (snd (js_call func s')) m = remainingCalls s' m"
  shows "timeouts (snd (throttle Date_now name func interval s)) m = timeouts s m \<and>
         remainingCalls (snd (throttle Date_now name func interval s)) m = remainingCalls s m"
proof -
  let ?s1 = "s\<lparr>timeouts := js_set (timeouts s) name (Num (Date_now (world s)))\<rparr>"
  have s1: "timeouts ?s1 m = timeouts s m \<and> remainingCalls ?s1 m = remainingCalls s m"
    using assms(1) by (simp add: js_set_other)
  from assms(2) [of ?s1] s1
  have call1: "timeouts (snd (js_call func ?s1)) m = timeouts s m \<and>
               remainingCalls (snd (js_call func ?s1)) m = remainingCalls s m"
    by simp
  show ?thesis
    using call1 assms(2) [of s] assms(1)
    by (auto simp add: throttle_def Let_def js_set_other split: prod.splits option.splits)
qed

text \<open>
  The world is a clock and a counter of executions; the caller sets the clock to
  0, 3, 6, 9 and 12 before the five calls.
\<close>

lemma throttle_z_scenario:
  "throttle_calls fst ''z'' (world_action (\<lambda>(t, c). (t, Suc c))) 5
     [\<lambda>(t, c). (0, c), \<lambda>(t, c). (3, c), \<lambda>(t, c). (6, c), \<lambda>(t, c). (9, c), \<lambda>(t, c). (12, c)]
     (new_ZLimit (0, 0)) =
   ([Inr (JBool False), Inr JUndefined, Inr (JBool True), Inr JUndefined, Inr (JBool True)],
    \<lparr>timeouts = [''z'' \<mapsto> Num 12], remainingCalls = Map.empty, world = (12, 3)\<rparr>)"
  by (simp add: model_defs)

section \<open>clear\<close>

lemma clear_state:
  "snd (clear name s) =
     s\<lparr>timeouts := (timeouts s)(name := None), remainingCalls := (remainingCalls s)(name := None)\<rparr>"
  by (auto simp add: clear_def js_in_def js_delete_def fun_upd_idem split: option.splits)

lemma clear_ordinary:
  assumes "name \<notin> set Object_prototype_keys"
  shows "clear name s =
           (Inr (JBool (timeouts s name \<noteq> None \<or> remainingCalls s name \<noteq> None)),
            s\<lparr>timeouts := (timeouts s)(name := None),
              remainingCalls := (remainingCalls s)(name := None)\<rparr>)"
  using assms
  by (auto simp add: clear_def js_in_def js_delete_def fun_upd_idem split: option.splits)

lemma clear_inherited:
  assumes "name \<in> set Object_prototype_keys"
  shows "clear name s =
           (Inr (JBool True),
            s\<lparr>timeouts := (timeouts s)(name := None),
              remainingCalls := (remainingCalls s)(name := None)\<rparr>)"
  using assms by (simp add: clear_def js_in_inherited js_delete_def)

lemma clear_a_scenario:
  "fst (limit ''a'' (world_action f) 2 (new_ZLimit w)) = Inr (JBool True) \<and>
   fst (limit_calls ''a'' (world_action f) [2, 2]
         (snd (clear ''a'' (snd (limit ''a'' (world_action f) 2 (new_ZLimit w)))))) =
     [Inr (JBool True), Inr (JBool True)] \<and>
   world (snd (limit_calls ''a'' (world_action f) [2, 2]
         (snd (clear ''a'' (snd (limit ''a'' (world_action f) 2 (new_ZLimit w))))))) = f (f (f w))"
  by (simp add: model_defs)


section \<open>The quota invariant, for actions that leave the quota object alone\<close>

lemma limit_nonneg:
  assumes inv: "\<forall>m v. remainingCalls s m = Some v \<longrightarrow> (\<exists>k. v = Num k \<and> 0 \<le> k)"
    and n: "0 \<le> n"
    and keeps: "\<And>s'. remainingCalls (snd (js_call func s')) = remainingCalls s'"
  shows "\<forall>m v. remainingCalls (snd (limit name func n s)) m = Some v \<longrightarrow> (\<exists>k. v = Num k \<and> 0 \<le> k)"
proof (cases "remainingCalls s name")
  case None
  show ?thesis
  proof (cases "name \<in> set Object_prototype_keys")
    case True
    with None inv show ?thesis by (simp add: limit_inherited)
  next
    case False
    let ?s1 = "s\<lparr>remainingCalls := (remainingCalls s)(name \<mapsto> Num n)\<rparr>"
    obtain e s2 where call: "js_call func ?s1 = (e, s2)" by (cases "js_call func ?s1")
    with keeps [of ?s1] have rc: "remainingCalls s2 = (remainingCalls s)(name \<mapsto> Num n)"
      by simp
    from None False call rc inv n show ?thesis
      by (auto simp add: limit_first Let_def js_decrement_def js_get_def js_plus_def js_set_own
          split: option.splits if_splits)
  qed
next
  case (Some v)
  with inv obtain r where v: "v = Num r" and r: "0 \<le> r" by blast
  obtain e s2 where call: "js_call func s = (e, s2)" by (cases "js_call func s")
  with keeps [of s] have rc: "remainingCalls s2 = remainingCalls s" by simp
  from Some v r call rc inv show ?thesis
    by (auto simp add: limit_repeat js_gt0_def js_decrement_def js_get_def js_plus_def js_set_own
        split: option.splits if_splits)
qed

lemma throttle_keeps_quota:
  assumes "\<And>s'. remainingCalls (snd (js_call func s')) = remainingCalls s'"
  shows "remainingCalls (snd (throttle Date_now name func interval s)) = remainingCalls s"
proof -
  let ?s1 = "s\<lparr>timeouts := js_set (timeouts s) name (Num (Date_now (world s)))\<rparr>"
  from assms [of ?s1] assms [of s] show ?thesis
    by (auto simp add: throttle_def Let_def split: prod.splits option.splits)
qed

lemma exec_nonneg:
  assumes "\<forall>m v. remainingCalls s m = Some v \<longrightarrow> (\<exists>k. v = Num k \<and> 0 \<le> k)"
    and "nonneg_limit c"
    and "\<And>func s'. call_action c = Some func \<Longrightarrow>
           remainingCalls (snd (js_call func s')) = remainingCalls s'"
  shows "\<forall>m v. remainingCalls (exec Date_now c s) m = Some v \<longrightarrow> (\<exists>k. v = Num k \<and> 0 \<le> k)"
proof (cases c)
  case (Once name func)
  with assms limit_nonneg [of s 1 func name] show ?thesis by (simp add: once_def)
next
  case (Throttle name func interval)
  with assms throttle_keeps_quota [of func Date_now name interval s] show ?thesis by simp
next
  case (Limit name func lim)
  with assms limit_nonneg [of s lim func name] show ?thesis by simp
next
  case (Clear name)
  with assms show ?thesis by (simp add: clear_removes)
next
  case (Caller g)
  with assms show ?thesis by simp
qed

text \<open>
  When no action of the run touches the quota object (none calls \<^verbatim>\<open>limit\<close>, \<^verbatim>\<open>once\<close>
  or \<^verbatim>\<open>clear\<close> while it runs) and no limit is negative, every quota entry is a number
  that is at least 0.
\<close>

lemma quota_invariant_without_reentry:
  "\<forall>m v. remainingCalls s m = Some v \<longrightarrow> (\<exists>k. v = Num k \<and> 0 \<le> k) \<Longrightarrow>
   \<forall>c \<in> set cs. nonneg_limit c \<and>
     (\<forall>func s'. call_action c = Some func \<longrightarrow>
        remainingCalls (snd (js_call func s')) = remainingCalls s') \<Longrightarrow>
   \<forall>m v. remainingCalls (run Date_now cs s) m = Some v \<longrightarrow> (\<exists>k. v = Num k \<and> 0 \<le> k)"
proof (induction cs arbitrary: s)
  case Nil
  then show ?case by simp
next
  case (Cons c cs)
  from Cons.prems
  have "\<forall>m v. remainingCalls (exec Date_now c s) m = Some v \<longrightarrow> (\<exists>k. v = Num k \<and> 0 \<le> k)"
    using exec_nonneg [of s c Date_now] by simp
  with Cons.IH [of "exec Date_now c s"] Cons.prems(2) show ?case by simp
qed


section \<open>Re-entrant actions\<close>

text \<open>
  C6. The claim: with every \<^verbatim>\<open>maxCalls\<close> a non-negative integer, every quota entry
  of every reachable state holds a count of at least 0. The code runs \<^verbatim>\<open>func()\<close> on
  line 89 and decrements on line 90 whatever the action left. On a new registry,
  \<^verbatim>\<open>limit('x', function () { zLimit.limit('x', g, 1) }, 1)\<close> seeds 1, the inner call
  decrements to 0, and the outer call decrements again: the entry of \<^verbatim>\<open>x\<close> is \<open>- 1\<close>.
  With an action that clears \<^verbatim>\<open>x\<close> the entry left is \<^verbatim>\<open>NaN\<close>.
\<close>

theorem quota_negative_by_reentry:
  "nonneg_limit (Limit ''x'' (calls_limit ''x'' (world_action g) 1) 1) \<and>
   nonneg_limit (Limit ''x'' (world_action g) 1) \<and>
   limit ''x'' (calls_limit ''x'' (world_action g) 1) 1 (new_ZLimit w) =
     (Inr (JBool True),
      \<lparr>timeouts = Map.empty, remainingCalls = [''x'' \<mapsto> Num (- 1)], world = g w\<rparr>) \<and>
   limit ''x'' (calls_clear ''x'') 1 (new_ZLimit w) =
     (Inr (JBool True),
      \<lparr>timeouts = Map.empty, remainingCalls = [''x'' \<mapsto> NaN], world = w\<rparr>)"
  by (simp add: model_defs)

section \<open>Locality\<close>

lemma world_action_leaves_registry:
  "timeouts (snd (js_call (world_action f) s)) = timeouts s \<and>
   remainingCalls (snd (js_call (world_action f) s)) = remainingCalls s"
  by simp

lemma NotCallable_leaves_registry:
  "timeouts (snd (js_call NotCallable s)) = timeouts s \<and>
   remainingCalls (snd (js_call NotCallable s)) = remainingCalls s"
  by simp

lemma calls_limit_leaves_others:
  assumes "m \<noteq> name"
    and "\<And>s'. timeouts (snd (js_call func s')) m = timeouts s' m \<and>
              remainingCalls (snd (js_call func s')) m = remainingCalls s' m"
  shows "timeouts (snd (js_call (calls_limit name func lim) s)) m = timeouts s m \<and>
         remainingCalls (snd (js_call (calls_limit name func lim) s)) m = remainingCalls s m"
  using limit_frame [OF assms, of lim s]
  by (auto simp add: js_call_def calls_limit_def split: prod.splits sum.splits)

text \<open>
  C10. A call of \<^verbatim>\<open>once\<close>, \<^verbatim>\<open>throttle\<close>, \<^verbatim>\<open>limit\<close> or \<^verbatim>\<open>clear\<close> on a name leaves the
  timestamp entry and the quota entry of every other name \<open>m\<close> as they were, whether or
  not the call raises: every write and delete of the operation is at its own name. The
  action is the caller's code; the hypothesis on it is that the action itself leaves the
  entries of \<open>m\<close> alone, which holds of every action that only touches the world, of
  anything that is not callable, and of an action that calls the registry on names
  other than \<open>m\<close>.
\<close>

theorem per_name_local:
  assumes "m \<noteq> name"
    and "\<And>s'. timeouts (snd (js_call func s')) m = timeouts s' m \<and>
              remainingCalls (snd (js_call func s')) m = remainingCalls s' m"
  shows "timeouts (snd (once name func s)) m = timeouts s m \<and>
         remainingCalls (snd (once name func s)) m = remainingCalls s m \<and>
         timeouts (snd (throttle Date_now name func interval s)) m = timeouts s m \<and>
         remainingCalls (snd (throttle Date_now name func interval s)) m = remainingCalls s m \<and>
         timeouts (snd (limit name func lim s)) m = timeouts s m \<and>
         remainingCalls (snd (limit name func lim s)) m = remainingCalls s m \<and>
         timeouts (snd (clear name s)) m = timeouts s m \<and>
         remainingCalls (snd (clear name s)) m = remainingCalls s m"
  using assms(1) limit_frame [OF assms, of 1 s] limit_frame [OF assms, of lim s]
    throttle_frame [OF assms, of Date_now interval s]
  by (simp add: once_def clear_removes)

theorem per_name_local_witness:
  "''b'' \<noteq> ''a'' \<and>
   remainingCalls (snd (limit ''a'' (world_action Suc) 2
     (snd (limit ''b'' (world_action Suc) 5 (new_ZLimit (0::nat)))))) ''b'' = Some (Num 4) \<and>
   timeouts (snd (clear ''a''
     (snd (throttle int ''b'' (world_action Suc) 5 (new_ZLimit (7::nat)))))) ''b'' = Some (Num 7) \<and>
   remainingCalls (snd (limit ''a'' (calls_limit ''a'' NotCallable 1) 2
     (snd (limit ''b'' (world_action Suc) 5 (new_ZLimit (0::nat)))))) ''b'' = Some (Num 4)"
proof -
  have ne: "''b'' \<noteq> ''a''" by simp
  have h1: "\<And>s'::nat zstate. timeouts (snd (js_call (world_action Suc) s')) ''b'' = timeouts s' ''b'' \<and>
              remainingCalls (snd (js_call (world_action Suc) s')) ''b'' = remainingCalls s' ''b''"
    by simp
  have h2: "\<And>s'::nat zstate.
              timeouts (snd (js_call (calls_limit ''a'' NotCallable 1) s')) ''b'' = timeouts s' ''b'' \<and>
              remainingCalls (snd (js_call (calls_limit ''a'' NotCallable 1) s')) ''b'' =
                remainingCalls s' ''b''"
    by (rule calls_limit_leaves_others) simp_all
  from per_name_local [OF ne h1, where s = "snd (limit ''b'' (world_action Suc) 5 (new_ZLimit 0))"
      and Date_now = int and interval = 5 and lim = 2]
    per_name_local [OF ne h1, where s = "snd (throttle int ''b'' (world_action Suc) 5 (new_ZLimit 7))"
      and Date_now = int and interval = 5 and lim = 2]
    per_name_local [OF ne h2, where s = "snd (limit ''b'' (world_action Suc) 5 (new_ZLimit 0))"
      and Date_now = int and interval = 5 and lim = 2]
  show ?thesis by (simp add: model_defs)
qed

section \<open>Names inherited from Object.prototype\<close>

text \<open>
  The theorems of this section evaluate the code on keys of \<^verbatim>\<open>Object.prototype\<close>, where
  the \<^verbatim>\<open>in\<close> tests answer true in a registry that has recorded nothing. The action is
  never called there, so they hold whatever the action is.
\<close>

text \<open>
  C1. The claim: in a sequence of \<^verbatim>\<open>limit\<close> calls on one name the action runs on
  exactly the first \<open>n\<close> calls, \<open>n\<close> the first call's \<^verbatim>\<open>maxCalls\<close>. On the name
  \<^verbatim>\<open>toString\<close>, five calls with \<^verbatim>\<open>maxCalls\<close> 3 on a new registry all return false: the
  action never runs and no quota is recorded.
\<close>

theorem limit_toString_never_runs:
  "limit_calls ''toString'' func [3, 3, 3, 3, 3] (new_ZLimit w) =
     ([Inr (JBool False), Inr (JBool False), Inr (JBool False), Inr (JBool False),
       Inr (JBool False)], new_ZLimit w)"
  by (simp add: limit_inherited inherited_toString new_ZLimit_def)

text \<open>
  C2. The claim: the first \<^verbatim>\<open>throttle\<close> call for a name records the time, runs the
  action and returns false. On the name \<^verbatim>\<open>toString\<close> the first call on a new registry
  takes the suppressed branch: it returns \<^verbatim>\<open>undefined\<close>, runs nothing and records
  nothing.
\<close>

theorem throttle_toString_first_call:
  "throttle Date_now ''toString'' func 5 (new_ZLimit w) = (Inr JUndefined, new_ZLimit w)"
  by (simp add: throttle_inherited inherited_toString new_ZLimit_def)

text \<open>
  C3. The claim: \<^verbatim>\<open>once\<close> runs the action and returns true on the first call for a
  name, and returns false afterwards. On the name \<^verbatim>\<open>toString\<close>, three calls on a new
  registry all return false and the action never runs.
\<close>

theorem once_toString_never_runs:
  "once_calls ''toString'' func 3 (new_ZLimit w) =
     ([Inr (JBool False), Inr (JBool False), Inr (JBool False)], new_ZLimit w)"
  by (simp add: numeral_3_eq_3 once_def limit_inherited inherited_toString new_ZLimit_def)

text \<open>
  C4. The claim: \<^verbatim>\<open>clear\<close> returns true exactly when the name had a timestamp entry
  or a quota entry, and false, changing nothing, when it had neither. The name
  \<^verbatim>\<open>valueOf\<close> has neither entry in a new registry; \<^verbatim>\<open>clear\<close> changes nothing and
  returns true.
\<close>

theorem clear_valueOf_fresh:
  "timeouts (new_ZLimit w) ''valueOf'' = None \<and>
   remainingCalls (new_ZLimit w) ''valueOf'' = None \<and>
   clear ''valueOf'' (new_ZLimit w) = (Inr (JBool True), new_ZLimit w)"
  by (simp add: clear_inherited inherited_valueOf new_ZLimit_def)

text \<open>
  C7. The claim: \<^verbatim>\<open>clear\<close> of a name never passed to any operation returns false,
  inherited keys such as \<^verbatim>\<open>toString\<close> and \<^verbatim>\<open>hasOwnProperty\<close> included. On a new
  registry \<^verbatim>\<open>clear\<close> of either name returns true.
\<close>

theorem clear_inherited_names_fresh:
  "fst (clear ''toString'' (new_ZLimit w)) = Inr (JBool True) \<and>
   fst (clear ''hasOwnProperty'' (new_ZLimit w)) = Inr (JBool True)"
  by (simp add: clear_inherited inherited_toString inherited_hasOwnProperty)

text \<open>
  C9. The claim: \<^verbatim>\<open>limit\<close> with \<^verbatim>\<open>maxCalls\<close> 0 on a name without a quota entry
  returns false, runs nothing, and still creates an entry seeded with 0; a negative
  \<^verbatim>\<open>maxCalls\<close> is stored as it is. On the name \<^verbatim>\<open>toString\<close> the call returns false and
  creates no entry, for 0 and for a negative \<^verbatim>\<open>maxCalls\<close> alike.
\<close>

theorem limit_zero_toString_no_entry:
  "limit ''toString'' func 0 (new_ZLimit w) = (Inr (JBool False), new_ZLimit w) \<and>
   remainingCalls (snd (limit ''toString'' func 0 (new_ZLimit w))) ''toString'' = None \<and>
   remainingCalls (snd (limit ''toString'' func (- 2) (new_ZLimit w))) ''toString'' = None"
  by (simp add: limit_inherited inherited_toString new_ZLimit_def)


section \<open>clear resets a name\<close>

text \<open>
  C5. After \<^verbatim>\<open>clear(name)\<close> the registry is, for that name, as if the name had never
  been seen: the state is the state before with both entries of the name gone and
  nothing else changed; the \<^verbatim>\<open>in\<close> tests and the reads of the next call answer as they
  do on a new registry; when no other name has an entry the state is a new registry;
  for an action that only touches the world the next \<^verbatim>\<open>limit\<close> or \<^verbatim>\<open>throttle\<close> call
  returns, records for the name and does to the world what it does on a new registry.
  For a name that is not an inherited key both \<^verbatim>\<open>in\<close> tests fail, which is the
  first-call branch. In particular \<^verbatim>\<open>limit('a', f, 2)\<close>, \<^verbatim>\<open>clear('a')\<close>, then
  \<^verbatim>\<open>limit('a', f, 2)\<close> twice executes the action on all three \<^verbatim>\<open>limit\<close> calls.
\<close>

theorem clear_resets_name:
  "snd (clear name s) =
     s\<lparr>timeouts := (timeouts s)(name := None),
       remainingCalls := (remainingCalls s)(name := None)\<rparr> \<and>
   js_in name (timeouts (snd (clear name s))) = js_in name (timeouts (new_ZLimit (world s))) \<and>
   js_in name (remainingCalls (snd (clear name s))) =
     js_in name (remainingCalls (new_ZLimit (world s))) \<and>
   js_get (timeouts (snd (clear name s))) name = js_get (timeouts (new_ZLimit (world s))) name \<and>
   js_get (remainingCalls (snd (clear name s))) name =
     js_get (remainingCalls (new_ZLimit (world s))) name \<and>
   ((\<forall>m. m \<noteq> name \<longrightarrow> timeouts s m = None \<and> remainingCalls s m = None) \<longrightarrow>
      snd (clear name s) = new_ZLimit (world s)) \<and>
   (name \<notin> set Object_prototype_keys \<longrightarrow>
      \<not> js_in name (timeouts (snd (clear name s))) \<and>
      \<not> js_in name (remainingCalls (snd (clear name s)))) \<and>
   fst (limit name (world_action f) n (snd (clear name s))) =
     fst (limit name (world_action f) n (new_ZLimit (world s))) \<and>
   remainingCalls (snd (limit name (world_action f) n (snd (clear name s)))) name =
     remainingCalls (snd (limit name (world_action f) n (new_ZLimit (world s)))) name \<and>
   world (snd (limit name (world_action f) n (snd (clear name s)))) =
     world (snd (limit name (world_action f) n (new_ZLimit (world s)))) \<and>
   fst (throttle Date_now name (world_action f) interval (snd (clear name s))) =
     fst (throttle Date_now name (world_action f) interval (new_ZLimit (world s))) \<and>
   timeouts (snd (throttle Date_now name (world_action f) interval (snd (clear name s)))) name =
     timeouts (snd (throttle Date_now name (world_action f) interval (new_ZLimit (world s)))) name \<and>
   world (snd (throttle Date_now name (world_action f) interval (snd (clear name s)))) =
     world (snd (throttle Date_now name (world_action f) interval (new_ZLimit (world s)))) \<and>
   fst (limit ''a'' (world_action f) 2 (new_ZLimit w)) = Inr (JBool True) \<and>
   fst (limit_calls ''a'' (world_action f) [2, 2]
         (snd (clear ''a'' (snd (limit ''a'' (world_action f) 2 (new_ZLimit w)))))) =
     [Inr (JBool True), Inr (JBool True)] \<and>
   world (snd (limit_calls ''a'' (world_action f) [2, 2]
         (snd (clear ''a'' (snd (limit ''a'' (world_action f) 2 (new_ZLimit w))))))) = f (f (f w))"
proof -
  let ?c = "snd (clear name s)"
  let ?n = "new_ZLimit (world s)"
  have st: "?c = s\<lparr>timeouts := (timeouts s)(name := None),
                    remainingCalls := (remainingCalls s)(name := None)\<rparr>"
    by (rule clear_state)
  have t: "timeouts ?c name = None" and r: "remainingCalls ?c name = None"
    and w: "world ?c = world s"
    by (simp_all add: clear_removes)
  have nt: "timeouts ?n name = None" and nr: "remainingCalls ?n name = None"
    and nw: "world ?n = world s"
    by (simp_all add: new_ZLimit_def)
  have ins: "js_in name (timeouts ?c) = js_in name (timeouts ?n)"
    "js_in name (remainingCalls ?c) = js_in name (remainingCalls ?n)"
    by (simp_all add: js_in_absent t r nt nr)
  have gets: "js_get (timeouts ?c) name = js_get (timeouts ?n) name"
    "js_get (remainingCalls ?c) name = js_get (remainingCalls ?n) name"
    by (simp_all add: js_get_def t r nt nr)
  have only: "(\<forall>m. m \<noteq> name \<longrightarrow> timeouts s m = None \<and> remainingCalls s m = None) \<longrightarrow>
      ?c = new_ZLimit (world s)"
  proof
    assume a: "\<forall>m. m \<noteq> name \<longrightarrow> timeouts s m = None \<and> remainingCalls s m = None"
    then have "(timeouts s)(name := None) = Map.empty"
      and "(remainingCalls s)(name := None) = Map.empty"
      by (auto simp add: fun_eq_iff)
    with st show "?c = new_ZLimit (world s)" by (simp add: new_ZLimit_def)
  qed
  have first: "name \<notin> set Object_prototype_keys \<longrightarrow>
      \<not> js_in name (timeouts ?c) \<and> \<not> js_in name (remainingCalls ?c)"
    by (simp add: js_in_absent t r)
  have lim: "fst (limit name (world_action f) n ?c) = fst (limit name (world_action f) n ?n) \<and>
     remainingCalls (snd (limit name (world_action f) n ?c)) name =
       remainingCalls (snd (limit name (world_action f) n ?n)) name \<and>
     world (snd (limit name (world_action f) n ?c)) =
       world (snd (limit name (world_action f) n ?n))"
  proof (cases "name \<in> set Object_prototype_keys")
    case True
    then show ?thesis by (simp add: limit_inherited r nr w nw)
  next
    case False
    then show ?thesis by (simp add: limit_unseen r nr w nw)
  qed
  have thr: "fst (throttle Date_now name (world_action f) interval ?c) =
       fst (throttle Date_now name (world_action f) interval ?n) \<and>
     timeouts (snd (throttle Date_now name (world_action f) interval ?c)) name =
       timeouts (snd (throttle Date_now name (world_action f) interval ?n)) name \<and>
     world (snd (throttle Date_now name (world_action f) interval ?c)) =
       world (snd (throttle Date_now name (world_action f) interval ?n))"
  proof (cases "name \<in> set Object_prototype_keys")
    case True
    then show ?thesis by (simp add: throttle_inherited t nt w nw)
  next
    case False
    then show ?thesis by (simp add: throttle_first t nt w nw)
  qed
  have sc: "fst (limit ''a'' (world_action f) 2 (new_ZLimit w)) = Inr (JBool True) \<and>
     fst (limit_calls ''a'' (world_action f) [2, 2]
           (snd (clear ''a'' (snd (limit ''a'' (world_action f) 2 (new_ZLimit w)))))) =
       [Inr (JBool True), Inr (JBool True)] \<and>
     world (snd (limit_calls ''a'' (world_action f) [2, 2]
           (snd (clear ''a'' (snd (limit ''a'' (world_action f) 2 (new_ZLimit w))))))) = f (f (f w))"
    by (rule clear_a_scenario)
  from st ins gets only first lim thr sc show ?thesis by blast
qed

theorem clear_resets_name_witness:
  "snd (clear ''a'' (snd (limit ''a'' (world_action Suc) 2 (new_ZLimit (0::nat))))) = new_ZLimit 1 \<and>
   \<not> js_in ''a'' (remainingCalls (snd (clear ''a''
       (snd (limit ''a'' (world_action Suc) 2 (new_ZLimit (0::nat))))))) \<and>
   \<not> js_in ''a'' (timeouts (snd (clear ''a''
       (snd (throttle int ''a'' (world_action Suc) 5 (new_ZLimit (0::nat))))))) \<and>
   world (snd (limit_calls ''a'' (world_action Suc) [2, 2]
         (snd (clear ''a'' (snd (limit ''a'' (world_action Suc) 2 (new_ZLimit (0::nat)))))))) = 3"
  using clear_resets_name [where name = "''a''"
      and s = "snd (limit ''a'' (world_action Suc) 2 (new_ZLimit (0::nat)))"
      and f = Suc and n = 2 and Date_now = int and interval = 5 and w = 0]
    clear_resets_name [where name = "''a''"
      and s = "snd (throttle int ''a'' (world_action Suc) 5 (new_ZLimit (0::nat)))"
      and f = Suc and n = 2 and Date_now = int and interval = 5 and w = 0]
  by (simp add: model_defs)

section \<open>Argument validation\<close>

text \<open>
  C8, as stated: every operation validates its arguments and fails before it changes
  any state; \<^verbatim>\<open>limit\<close> with a negative \<^verbatim>\<open>maxCalls\<close> records no quota entry. The code
  checks nothing: \<^verbatim>\<open>limit('a', f, -1)\<close> on a new registry returns false and records the
  entry \<open>- 1\<close>.
\<close>

theorem negative_limit_recorded:
  "fst (limit ''a'' (world_action id) (- 1) (new_ZLimit ())) = Inr (JBool False) \<and>
   remainingCalls (snd (limit ''a'' (world_action id) (- 1) (new_ZLimit ()))) ''a'' =
     Some (Num (- 1))"
  by (simp add: model_defs)

text \<open>
  C8, amended. The operations do not validate their arguments. A negative limit or
  interval raises no error: \<^verbatim>\<open>limit\<close> with a negative \<^verbatim>\<open>maxCalls\<close> on a name that has
  no quota entry (and is not an inherited key) records the negative count as the entry
  and returns false without calling the action, and \<^verbatim>\<open>throttle\<close> with a negative
  interval on a name whose timestamp is not in the future takes the branch that calls
  the action. An action whose call fails (one that is not callable raises
  \<^verbatim>\<open>TypeError\<close>, a callable one may throw) makes the operation fail only when the
  operation comes to call it; a suppressed call returns as usual. On a first call for a
  name the failure comes after the mutation: \<^verbatim>\<open>limit\<close> has seeded the quota entry,
  \<^verbatim>\<open>throttle\<close> has recorded the timestamp, the action was called on that state, and the
  operation leaves what the action left. On a repeat call the operation has written
  nothing when it fails: the state is what the action left, and unchanged for an action
  that is not callable.
\<close>

theorem no_argument_validation:
  "(remainingCalls s name = None \<and> name \<notin> set Object_prototype_keys \<and> lim < 0 \<longrightarrow>
      limit name func lim s =
        (Inr (JBool False), s\<lparr>remainingCalls := (remainingCalls s)(name \<mapsto> Num lim)\<rparr>)) \<and>
   (timeouts s name = Some (Num t0) \<and> t0 \<le> Date_now (world s) \<and> interval < 0 \<longrightarrow>
      throttle Date_now name func interval s =
        (case js_call func s of
           (Some e', s2) \<Rightarrow> (Inl e', s2)
         | (None, s2) \<Rightarrow>
             (Inr (JBool True),
              s2\<lparr>timeouts := js_set (timeouts s2) name (Num (Date_now (world s2)))\<rparr>))) \<and>
   (remainingCalls s name = None \<and> name \<notin> set Object_prototype_keys \<and> 0 < lim \<and>
    fst (js_call func (s\<lparr>remainingCalls := (remainingCalls s)(name \<mapsto> Num lim)\<rparr>)) = Some e \<longrightarrow>
      limit name func lim s =
        (Inl e, snd (js_call func (s\<lparr>remainingCalls := (remainingCalls s)(name \<mapsto> Num lim)\<rparr>)))) \<and>
   (timeouts s name = None \<and> name \<notin> set Object_prototype_keys \<and>
    fst (js_call func (s\<lparr>timeouts := (timeouts s)(name \<mapsto> Num (Date_now (world s)))\<rparr>)) = Some e \<longrightarrow>
      throttle Date_now name func interval s =
        (Inl e,
         snd (js_call func (s\<lparr>timeouts := (timeouts s)(name \<mapsto> Num (Date_now (world s)))\<rparr>)))) \<and>
   (remainingCalls s name = Some (Num r) \<and> 0 < r \<and> fst (js_call func s) = Some e \<longrightarrow>
      limit name func lim s = (Inl e, snd (js_call func s))) \<and>
   (timeouts s name = Some (Num t0) \<and> interval \<le> Date_now (world s) - t0 \<and>
    fst (js_call func s) = Some e \<longrightarrow>
      throttle Date_now name func interval s = (Inl e, snd (js_call func s))) \<and>
   (remainingCalls s name = Some (Num r) \<and> r \<le> 0 \<longrightarrow>
      limit name func lim s = (Inr (JBool False), s)) \<and>
   (timeouts s name = Some (Num t0) \<and> Date_now (world s) - t0 < interval \<longrightarrow>
      throttle Date_now name func interval s = (Inr JUndefined, s))"
proof -
  have neg: "remainingCalls s name = None \<and> name \<notin> set Object_prototype_keys \<and> lim < 0 \<longrightarrow>
      limit name func lim s =
        (Inr (JBool False), s\<lparr>remainingCalls := (remainingCalls s)(name \<mapsto> Num lim)\<rparr>)"
    by (simp add: limit_first Let_def)
  have negi: "timeouts s name = Some (Num t0) \<and> t0 \<le> Date_now (world s) \<and> interval < 0 \<longrightarrow>
      throttle Date_now name func interval s =
        (case js_call func s of
           (Some e', s2) \<Rightarrow> (Inl e', s2)
         | (None, s2) \<Rightarrow>
             (Inr (JBool True),
              s2\<lparr>timeouts := js_set (timeouts s2) name (Num (Date_now (world s2)))\<rparr>))"
    by (simp add: throttle_repeat_call)
  have lf: "remainingCalls s name = None \<and> name \<notin> set Object_prototype_keys \<and> 0 < lim \<and>
    fst (js_call func (s\<lparr>remainingCalls := (remainingCalls s)(name \<mapsto> Num lim)\<rparr>)) = Some e \<longrightarrow>
      limit name func lim s =
        (Inl e, snd (js_call func (s\<lparr>remainingCalls := (remainingCalls s)(name \<mapsto> Num lim)\<rparr>)))"
    by (auto simp add: limit_first Let_def split: prod.splits option.splits)
  have tf: "timeouts s name = None \<and> name \<notin> set Object_prototype_keys \<and>
    fst (js_call func (s\<lparr>timeouts := (timeouts s)(name \<mapsto> Num (Date_now (world s)))\<rparr>)) = Some e \<longrightarrow>
      throttle Date_now name func interval s =
        (Inl e,
         snd (js_call func (s\<lparr>timeouts := (timeouts s)(name \<mapsto> Num (Date_now (world s)))\<rparr>)))"
    by (auto simp add: throttle_first_call Let_def split: prod.splits option.splits)
  have lr: "remainingCalls s name = Some (Num r) \<and> 0 < r \<and> fst (js_call func s) = Some e \<longrightarrow>
      limit name func lim s = (Inl e, snd (js_call func s))"
    by (auto simp add: limit_repeat js_gt0_def split: prod.splits option.splits)
  have tr: "timeouts s name = Some (Num t0) \<and> interval \<le> Date_now (world s) - t0 \<and>
    fst (js_call func s) = Some e \<longrightarrow>
      throttle Date_now name func interval s = (Inl e, snd (js_call func s))"
    by (auto simp add: throttle_repeat_call split: prod.splits option.splits)
  have ls: "remainingCalls s name = Some (Num r) \<and> r \<le> 0 \<longrightarrow>
      limit name func lim s = (Inr (JBool False), s)"
    by (simp add: limit_repeat js_gt0_def)
  have ts: "timeouts s name = Some (Num t0) \<and> Date_now (world s) - t0 < interval \<longrightarrow>
      throttle Date_now name func interval s = (Inr JUndefined, s)"
    by (simp add: throttle_repeat_call)
  from neg negi lf tf lr tr ls ts show ?thesis
    by (simp only: simp_thms)
qed

theorem no_argument_validation_witness:
  "limit ''a'' NotCallable (- 1) (new_ZLimit ()) =
     (Inr (JBool False), (new_ZLimit ())\<lparr>remainingCalls := [''a'' \<mapsto> Num (- 1)]\<rparr>) \<and>
   throttle id ''a'' (world_action id) (- 5) ((new_ZLimit 40)\<lparr>timeouts := [''a'' \<mapsto> Num 40]\<rparr>) =
     (Inr (JBool True), (new_ZLimit 40)\<lparr>timeouts := [''a'' \<mapsto> Num 40]\<rparr>) \<and>
   limit ''a'' NotCallable 2 (new_ZLimit ()) =
     (Inl TypeError, (new_ZLimit ())\<lparr>remainingCalls := [''a'' \<mapsto> Num 2]\<rparr>) \<and>
   throttle id ''a'' throwing_action (- 5) (new_ZLimit 40) =
     (Inl Thrown, (new_ZLimit 40)\<lparr>timeouts := [''a'' \<mapsto> Num 40]\<rparr>) \<and>
   limit ''a'' NotCallable 9 ((new_ZLimit ())\<lparr>remainingCalls := [''a'' \<mapsto> Num 2]\<rparr>) =
     (Inl TypeError, (new_ZLimit ())\<lparr>remainingCalls := [''a'' \<mapsto> Num 2]\<rparr>) \<and>
   throttle id ''a'' NotCallable 5 ((new_ZLimit 40)\<lparr>timeouts := [''a'' \<mapsto> Num 30]\<rparr>) =
     (Inl TypeError, (new_ZLimit 40)\<lparr>timeouts := [''a'' \<mapsto> Num 30]\<rparr>) \<and>
   limit ''a'' NotCallable 9 ((new_ZLimit ())\<lparr>remainingCalls := [''a'' \<mapsto> Num 0]\<rparr>) =
     (Inr (JBool False), (new_ZLimit ())\<lparr>remainingCalls := [''a'' \<mapsto> Num 0]\<rparr>) \<and>
   throttle id ''a'' NotCallable 50 ((new_ZLimit 40)\<lparr>timeouts := [''a'' \<mapsto> Num 30]\<rparr>) =
     (Inr JUndefined, (new_ZLimit 40)\<lparr>timeouts := [''a'' \<mapsto> Num 30]\<rparr>)"
  using no_argument_validation [where s = "new_ZLimit ()" and name = "''a''" and lim = "- 1"
      and func = NotCallable]
    no_argument_validation [where s = "(new_ZLimit 40)\<lparr>timeouts := [''a'' \<mapsto> Num 40]\<rparr>"
      and name = "''a''" and func = "world_action id" and ?t0.0 = 40 and Date_now = id
      and interval = "- 5"]
    no_argument_validation [where s = "new_ZLimit ()" and name = "''a''" and lim = 2
      and func = NotCallable and e = TypeError]
    no_argument_validation [where s = "new_ZLimit 40" and name = "''a''"
      and func = throwing_action and Date_now = id and interval = "- 5" and e = Thrown]
    no_argument_validation [where s = "(new_ZLimit ())\<lparr>remainingCalls := [''a'' \<mapsto> Num 2]\<rparr>"
      and name = "''a''" and lim = 9 and func = NotCallable and e = TypeError and r = 2]
    no_argument_validation [where s = "(new_ZLimit 40)\<lparr>timeouts := [''a'' \<mapsto> Num 30]\<rparr>"
      and name = "''a''" and func = NotCallable and ?t0.0 = 30 and Date_now = id
      and interval = 5 and e = TypeError]
    no_argument_validation [where s = "(new_ZLimit ())\<lparr>remainingCalls := [''a'' \<mapsto> Num 0]\<rparr>"
      and name = "''a''" and lim = 9 and func = NotCallable and r = 0]
    no_argument_validation [where s = "(new_ZLimit 40)\<lparr>timeouts := [''a'' \<mapsto> Num 30]\<rparr>"
      and name = "''a''" and func = NotCallable and ?t0.0 = 30 and Date_now = id
      and interval = 50]
  by (simp add: new_ZLimit_def Object_prototype_keys_def js_set_def)

end
